theory Spec2Isabelle
  imports Main "HOL-Library.Stream"
begin

section \<open>The BB84 notebook: data model\<close>

text \<open>
  The notebook \<^verbatim>\<open>notebooks/BB84.ipynb\<close> has three code cells after its imports:
  cell 3 draws the three random bit arrays, cell 5 defines \<^verbatim>\<open>make_bb84_circ\<close>, and
  cell 7 runs the circuit once, sifts the key and prints its statistics.

  NumPy integer arrays are lists of \<^typ>\<open>int\<close>; the measured outcome \<^verbatim>\<open>temp_key\<close> and the
  key are Python strings, here \<^typ>\<open>string\<close>. Every exception the cells can raise is a
  value of \<open>error\<close>, and a computation that may raise returns \<open>error + 'a\<close>.
\<close>

datatype error = IndexError | CircuitError | ValueError

text \<open>
  The instructions a circuit holds. A gate carries the index of the qubit it acts on;
  \<^verbatim>\<open>barrier()\<close> and \<^verbatim>\<open>measure_all()\<close> are called without arguments and act on every
  qubit of the circuit, so they carry the list of all its qubit indices. Each call of the
  source is one instruction here; what the library expands \<^verbatim>\<open>measure_all()\<close> into is
  not modelled.
\<close>

datatype instruction =
    XGate nat
  | HGate nat
  | Barrier "nat list"
  | MeasureAll "nat list"

record circuit =
  num_qubits :: nat
  data :: "instruction list"

section \<open>Python and library primitives\<close>

text \<open>\<^verbatim>\<open>xs[i]\<close> for an index \<open>i \<ge> 0\<close>: out of range raises IndexError.\<close>

definition getitem :: "'a list \<Rightarrow> nat \<Rightarrow> error + 'a" where
  "getitem xs i = (if i < length xs then Inr (xs ! i) else Inl IndexError)"

text \<open>\<^verbatim>\<open>range(n)\<close>: empty when \<open>n \<le> 0\<close>.\<close>

definition range_py :: "int \<Rightarrow> nat list" where
  "range_py n = [0..<nat n]"

text \<open>
  A \<^verbatim>\<open>for\<close> loop over a list of indices whose body may raise: the first exception ends
  the loop and is the result.
\<close>

fun for_each :: "nat list \<Rightarrow> (nat \<Rightarrow> 's \<Rightarrow> error + 's) \<Rightarrow> 's \<Rightarrow> error + 's" where
  "for_each [] body s = Inr s"
| "for_each (i # js) body s =
     (case body i s of Inl e \<Rightarrow> Inl e | Inr s' \<Rightarrow> for_each js body s')"

text \<open>
  Qiskit's circuit interface, by its documented effect on the instruction list.
  \<^verbatim>\<open>QuantumCircuit(n)\<close> is an empty circuit on \<open>n\<close> qubits; the methods \<^verbatim>\<open>x(q)\<close> and
  \<^verbatim>\<open>h(q)\<close> (here \<open>circ_x\<close> and \<open>circ_h\<close>) append a gate on qubit \<open>q\<close> and raise
  CircuitError when the circuit has no qubit \<open>q\<close>.
\<close>

definition QuantumCircuit :: "nat \<Rightarrow> circuit" where
  "QuantumCircuit n = \<lparr>num_qubits = n, data = []\<rparr>"

definition circ_x :: "circuit \<Rightarrow> nat \<Rightarrow> error + circuit" where
  "circ_x c q = (if q < num_qubits c then Inr (c\<lparr>data := data c @ [XGate q]\<rparr>)
            else Inl CircuitError)"

definition circ_h :: "circuit \<Rightarrow> nat \<Rightarrow> error + circuit" where
  "circ_h c q = (if q < num_qubits c then Inr (c\<lparr>data := data c @ [HGate q]\<rparr>)
            else Inl CircuitError)"

definition barrier :: "circuit \<Rightarrow> circuit" where
  "barrier c = c\<lparr>data := data c @ [Barrier [0..<num_qubits c]]\<rparr>"

definition measure_all :: "circuit \<Rightarrow> circuit" where
  "measure_all c = c\<lparr>data := data c @ [MeasureAll [0..<num_qubits c]]\<rparr>"

text \<open>
  \<^verbatim>\<open>np.random.randint(2, size=n)\<close>, with the process-wide generator made explicit as a
  stream of raw draws: \<open>n\<close> draws are consumed and reduced to bits. NumPy raises
  ValueError for a negative size and returns the empty array for size 0.
\<close>

definition randint2 :: "int \<Rightarrow> nat stream \<Rightarrow> error + (int list \<times> nat stream)" where
  "randint2 sz g =
     (if sz < 0 then Inl ValueError
      else Inr (map (\<lambda>w. int (w mod 2)) (stake (nat sz) g), sdrop (nat sz) g))"

section \<open>Cell 3: the three random bit arrays\<close>

text \<open>
  \<^verbatim>\<open>alice_basis\<close>, \<^verbatim>\<open>alice_state\<close> and \<^verbatim>\<open>bob_basis\<close> are drawn in this order, each with
  \<^verbatim>\<open>size=num_qubits\<close>; the result lists them in the order drawn.
\<close>

definition generate_strings ::
  "int \<Rightarrow> nat stream \<Rightarrow> error + ((int list \<times> int list \<times> int list) \<times> nat stream)" where
  "generate_strings n g =
     (case randint2 n g of Inl e \<Rightarrow> Inl e | Inr (alice_basis, g1) \<Rightarrow>
      (case randint2 n g1 of Inl e \<Rightarrow> Inl e | Inr (alice_state, g2) \<Rightarrow>
       (case randint2 n g2 of Inl e \<Rightarrow> Inl e | Inr (bob_basis, g3) \<Rightarrow>
          Inr ((alice_basis, alice_state, bob_basis), g3))))"

section \<open>Cell 5: \<^verbatim>\<open>make_bb84_circ\<close>\<close>

text \<open>
  The body of the sender's loop: \<^verbatim>\<open>enc_state[index]\<close> is read and compared with 1, then
  \<^verbatim>\<open>enc_basis[index]\<close>; each comparison that holds appends its gate on qubit \<open>index\<close>.
\<close>

definition prepare_qubit :: "int list \<Rightarrow> int list \<Rightarrow> nat \<Rightarrow> circuit \<Rightarrow> error + circuit" where
  "prepare_qubit enc_state enc_basis index c =
     (case getitem enc_state index of Inl e \<Rightarrow> Inl e | Inr s \<Rightarrow>
      (case (if s = 1 then circ_x c index else Inr c) of Inl e \<Rightarrow> Inl e | Inr c1 \<Rightarrow>
       (case getitem enc_basis index of Inl e \<Rightarrow> Inl e | Inr b \<Rightarrow>
          (if b = 1 then circ_h c1 index else Inr c1))))"

text \<open>The body of the receiver's loop.\<close>

definition rotate_qubit :: "int list \<Rightarrow> nat \<Rightarrow> circuit \<Rightarrow> error + circuit" where
  "rotate_qubit meas_basis index c =
     (case getitem meas_basis index of Inl e \<Rightarrow> Inl e | Inr b \<Rightarrow>
        (if b = 1 then circ_h c index else Inr c))"

definition make_bb84_circ :: "int list \<Rightarrow> int list \<Rightarrow> int list \<Rightarrow> error + circuit" where
  "make_bb84_circ enc_state enc_basis meas_basis =
     (let bb84_circ = QuantumCircuit (length enc_state) in
      case for_each [0..<length enc_basis] (prepare_qubit enc_state enc_basis) bb84_circ of
        Inl e \<Rightarrow> Inl e
      | Inr c1 \<Rightarrow>
         (case for_each [0..<length meas_basis] (rotate_qubit meas_basis) (barrier c1) of
            Inl e \<Rightarrow> Inl e
          | Inr c2 \<Rightarrow> Inr (measure_all (barrier c2))))"

section \<open>Cell 7: sifting and key statistics\<close>

text \<open>
  The body of the sifting loop: the two bases are read at \<open>i\<close> and compared; only when
  they are equal is \<^verbatim>\<open>temp_key[i]\<close> read and appended to the key.
\<close>

definition sift_step :: "int list \<Rightarrow> int list \<Rightarrow> string \<Rightarrow> nat \<Rightarrow> string \<Rightarrow> error + string" where
  "sift_step alice_basis bob_basis temp_key i key =
     (case getitem alice_basis i of Inl e \<Rightarrow> Inl e | Inr a \<Rightarrow>
      (case getitem bob_basis i of Inl e \<Rightarrow> Inl e | Inr b \<Rightarrow>
         (if a = b
          then (case getitem temp_key i of Inl e \<Rightarrow> Inl e | Inr ch \<Rightarrow> Inr (key @ [ch]))
          else Inr key)))"

text \<open>
  The loop runs over \<^verbatim>\<open>range(num_qubits)\<close>, where \<^verbatim>\<open>num_qubits\<close> is the notebook's global,
  and starts from the empty key.
\<close>

definition sift :: "int \<Rightarrow> int list \<Rightarrow> int list \<Rightarrow> string \<Rightarrow> error + string" where
  "sift n alice_basis bob_basis temp_key =
     for_each (range_py n) (sift_step alice_basis bob_basis temp_key) []"

text \<open>The three numbers the cell prints: \<^verbatim>\<open>len(key)\<close>, \<^verbatim>\<open>key.count('0')\<close>, \<^verbatim>\<open>key.count('1')\<close>.\<close>

record key_report =
  key_length :: nat
  zeroCount :: nat
  oneCount :: nat

definition summarize :: "string \<Rightarrow> key_report" where
  "summarize key =
     \<lparr>key_length = length key,
      zeroCount = count_list key CHR ''0'',
      oneCount = count_list key CHR ''1''\<rparr>"

text \<open>The positions at which the two bases agree, in ascending order.\<close>

definition agreeing :: "nat \<Rightarrow> int list \<Rightarrow> int list \<Rightarrow> nat list" where
  "agreeing n alice_basis bob_basis =
     filter (\<lambda>i. alice_basis ! i = bob_basis ! i) [0..<n]"

text \<open>
  The loop meets an index it cannot read: some \<open>i < n\<close> lies beyond the end of a basis
  array, or the bases agree at \<open>i\<close> and \<open>i\<close> lies beyond the end of the outcome string.
\<close>

definition sift_fails :: "nat \<Rightarrow> int list \<Rightarrow> int list \<Rightarrow> string \<Rightarrow> bool" where
  "sift_fails n alice_basis bob_basis temp_key =
     (\<exists>i\<in>{0..<n}. length alice_basis \<le> i \<or> length bob_basis \<le> i \<or>
        (alice_basis ! i = bob_basis ! i \<and> length temp_key \<le> i))"

text \<open>The qubits an instruction acts on.\<close>

fun qubits_of :: "instruction \<Rightarrow> nat list" where
  "qubits_of (XGate q) = [q]"
| "qubits_of (HGate q) = [q]"
| "qubits_of (Barrier qs) = qs"
| "qubits_of (MeasureAll qs) = qs"

section \<open>Loops\<close>

lemma for_each_append:
  "for_each (is @ js) body s =
     (case for_each is body s of Inl e \<Rightarrow> Inl e | Inr s' \<Rightarrow> for_each js body s')"
  by (induction "is" arbitrary: s) (auto split: sum.splits)

lemma for_each_snoc:
  "for_each [0..<Suc n] body s =
     (case for_each [0..<n] body s of Inl e \<Rightarrow> Inl e | Inr s' \<Rightarrow> body n s')"
  by (simp add: for_each_append split: sum.splits)


lemma sift_fails_Suc:
  "sift_fails (Suc n) a b t \<longleftrightarrow>
     sift_fails n a b t \<or> length a \<le> n \<or> length b \<le> n \<or> (a ! n = b ! n \<and> length t \<le> n)"
  by (auto simp: sift_fails_def less_Suc_eq)

lemma sift_loop:
  "for_each [0..<n] (sift_step a b t) key =
     (if sift_fails n a b t then Inl IndexError
      else Inr (key @ map ((!) t) (agreeing n a b)))"
proof (induction n)
  case 0
  show ?case by (simp add: sift_fails_def agreeing_def)
next
  case (Suc n)
  show ?case
    unfolding for_each_snoc Suc.IH sift_fails_Suc
    by (simp add: sift_step_def getitem_def agreeing_def)
qed

lemma sift_eq:
  "sift n a b t =
     (if sift_fails (nat n) a b t then Inl IndexError
      else Inr (map ((!) t) (agreeing (nat n) a b)))"
  by (simp add: sift_def range_py_def sift_loop)

lemma agreeing_sorted_list:
  "sorted_list_of_set {i. i < n \<and> a ! i = b ! i} = agreeing n a b"
proof -
  have "{i. i < n \<and> a ! i = b ! i} = set (agreeing n a b)"
    by (auto simp: agreeing_def)
  moreover have "sorted (agreeing n a b)" "distinct (agreeing n a b)"
    by (simp_all add: agreeing_def sorted_filter [where f = "\<lambda>x. x", simplified])
  ultimately show ?thesis
    by (simp add: sorted_list_of_set.idem_if_sorted_distinct)
qed

lemma length_agreeing:
  "length (agreeing n a b) = card {i. i < n \<and> a ! i = b ! i}"
proof -
  have "{i. i < n \<and> a ! i = b ! i} = set (agreeing n a b)"
    by (auto simp: agreeing_def)
  moreover have "distinct (agreeing n a b)"
    by (simp add: agreeing_def)
  ultimately show ?thesis
    by (simp add: distinct_card)
qed

lemma sift_bits:
  assumes "sift n a b t = Inr key" "set t \<subseteq> {CHR ''0'', CHR ''1''}"
  shows "set key \<subseteq> {CHR ''0'', CHR ''1''}"
proof -
  from assms(1) have ok: "\<not> sift_fails (nat n) a b t"
    and key: "key = map ((!) t) (agreeing (nat n) a b)"
    by (auto simp: sift_eq split: if_splits)
  have "t ! i \<in> set t" if "i \<in> set (agreeing (nat n) a b)" for i
    using that ok by (auto simp: agreeing_def sift_fails_def not_le)
  with assms(2) show ?thesis
    unfolding key by auto
qed

lemma prepare_loop:
  assumes "n \<le> num_qubits c" "n \<le> length st" "n \<le> length sb"
  shows "for_each [0..<n] (prepare_qubit st sb) c =
     Inr (c\<lparr>data := data c @ concat (map (\<lambda>i. (if st ! i = 1 then [XGate i] else []) @ (if sb ! i = 1 then [HGate i] else [])) [0..<n])\<rparr>)"
  using assms
proof (induction n)
  case 0
  show ?case by simp
next
  case (Suc n)
  from Suc.prems have "n \<le> num_qubits c" "n \<le> length st" "n \<le> length sb"
    by simp_all
  note IH = Suc.IH [OF this]
  from Suc.prems show ?case
    unfolding for_each_snoc IH
    by (simp add: prepare_qubit_def getitem_def circ_x_def circ_h_def)
qed

lemma rotate_loop:
  assumes "n \<le> num_qubits c" "n \<le> length mb"
  shows "for_each [0..<n] (rotate_qubit mb) c =
     Inr (c\<lparr>data := data c @ concat (map (\<lambda>i. if mb ! i = 1 then [HGate i] else []) [0..<n])\<rparr>)"
  using assms
proof (induction n)
  case 0
  show ?case by simp
next
  case (Suc n)
  from Suc.prems have "n \<le> num_qubits c" "n \<le> length mb"
    by simp_all
  note IH = Suc.IH [OF this]
  from Suc.prems show ?case
    unfolding for_each_snoc IH
    by (simp add: rotate_qubit_def getitem_def circ_h_def)
qed


lemma prepare_qubit_eq:
  assumes "index < num_qubits c" "index < length enc_state" "index < length enc_basis"
  shows "prepare_qubit enc_state enc_basis index c =
     Inr (c\<lparr>data := data c @ (if enc_state ! index = 1 then [XGate index] else [])
                              @ (if enc_basis ! index = 1 then [HGate index] else [])\<rparr>)"
  using assms by (simp add: prepare_qubit_def getitem_def circ_x_def circ_h_def)

lemma rotate_qubit_eq:
  assumes "index < num_qubits c" "index < length meas_basis"
  shows "rotate_qubit meas_basis index c =
     Inr (c\<lparr>data := data c @ (if meas_basis ! index = 1 then [HGate index] else [])\<rparr>)"
  using assms by (simp add: rotate_qubit_def getitem_def circ_h_def)

lemma make_bb84_circ_eq:
  assumes "length enc_state = N" "length enc_basis = N" "length meas_basis = N"
  shows "make_bb84_circ enc_state enc_basis meas_basis =
     Inr \<lparr>num_qubits = N,
          data =
            concat (map (\<lambda>i. (if enc_state ! i = 1 then [XGate i] else [])
                              @ (if enc_basis ! i = 1 then [HGate i] else [])) [0..<N])
            @ [Barrier [0..<N]]
            @ concat (map (\<lambda>i. if meas_basis ! i = 1 then [HGate i] else []) [0..<N])
            @ [Barrier [0..<N]]
            @ [MeasureAll [0..<N]]\<rparr>"
proof -
  let ?c0 = "QuantumCircuit N"
  have p: "for_each [0..<N] (prepare_qubit enc_state enc_basis) ?c0 =
      Inr (?c0\<lparr>data := data ?c0 @ concat (map (\<lambda>i. (if enc_state ! i = 1 then [XGate i] else [])
                              @ (if enc_basis ! i = 1 then [HGate i] else [])) [0..<N])\<rparr>)"
    (is "_ = Inr ?c1")
    using assms by (intro prepare_loop) (simp_all add: QuantumCircuit_def)
  have r: "for_each [0..<N] (rotate_qubit meas_basis) (barrier ?c1) =
      Inr ((barrier ?c1)\<lparr>data := data (barrier ?c1)
             @ concat (map (\<lambda>i. if meas_basis ! i = 1 then [HGate i] else []) [0..<N])\<rparr>)"
    using assms by (intro rotate_loop) (simp_all add: QuantumCircuit_def barrier_def)
  show ?thesis
    unfolding make_bb84_circ_def Let_def assms p sum.case r
    by (simp add: QuantumCircuit_def barrier_def measure_all_def)
qed

lemma randint2_bits:
  assumes "randint2 n g = Inr (bits, g')"
  shows "int (length bits) = n \<and> set bits \<subseteq> {0, 1}"
  using assms by (auto simp: randint2_def split: if_splits)

section \<open>The per-qubit encoding\<close>

text \<open>
  C2. For a state bit and a basis bit in \<open>{0, 1}\<close>, the sender's step on a qubit appends
  nothing for \<open>(0, 0)\<close>, a single X for \<open>(1, 0)\<close>, a single H for \<open>(0, 1)\<close>, and X followed by H
  for \<open>(1, 1)\<close>. The step is taken at an index the loop of \<^verbatim>\<open>make_bb84_circ\<close> visits on
  inputs of equal length: within both arrays and within the circuit.
\<close>

theorem encoding_table:
  assumes "index < num_qubits c" "index < length enc_state" "index < length enc_basis"
  shows "(enc_state ! index = 0 \<and> enc_basis ! index = 0 \<longrightarrow>
            prepare_qubit enc_state enc_basis index c = Inr c)
       \<and> (enc_state ! index = 1 \<and> enc_basis ! index = 0 \<longrightarrow>
            prepare_qubit enc_state enc_basis index c = Inr (c\<lparr>data := data c @ [XGate index]\<rparr>))
       \<and> (enc_state ! index = 0 \<and> enc_basis ! index = 1 \<longrightarrow>
            prepare_qubit enc_state enc_basis index c = Inr (c\<lparr>data := data c @ [HGate index]\<rparr>))
       \<and> (enc_state ! index = 1 \<and> enc_basis ! index = 1 \<longrightarrow>
            prepare_qubit enc_state enc_basis index c =
              Inr (c\<lparr>data := data c @ [XGate index, HGate index]\<rparr>))"
  by (simp add: prepare_qubit_eq [OF assms])

theorem encoding_table_witness:
  "prepare_qubit [0] [0] 0 (QuantumCircuit 1) = Inr (QuantumCircuit 1)
   \<and> prepare_qubit [1] [0] 0 (QuantumCircuit 1) = Inr \<lparr>num_qubits = 1, data = [XGate 0]\<rparr>
   \<and> prepare_qubit [0] [1] 0 (QuantumCircuit 1) = Inr \<lparr>num_qubits = 1, data = [HGate 0]\<rparr>
   \<and> prepare_qubit [1] [1] 0 (QuantumCircuit 1) =
        Inr \<lparr>num_qubits = 1, data = [XGate 0, HGate 0]\<rparr>"
proof -
  have q: "0 < num_qubits (QuantumCircuit 1)"
    by (simp add: QuantumCircuit_def)
  have l0: "0 < length [0 :: int]" and l1: "0 < length [1 :: int]"
    by simp_all
  show ?thesis
    using encoding_table [OF q l0 l0] encoding_table [OF q l1 l0]
      encoding_table [OF q l0 l1] encoding_table [OF q l1 l1]
    by (simp add: QuantumCircuit_def)
qed

section \<open>The built circuit\<close>

text \<open>
  C3. For three arrays of equal positive length \<open>N\<close>, \<^verbatim>\<open>make_bb84_circ\<close> returns a circuit
  whose instructions are, in this order: for each qubit \<open>i = 0, \<dots>, N - 1\<close> in ascending
  order its encoding operations (X when the state bit is 1, then H when the sender's
  basis bit is 1); a barrier; for each qubit \<open>i\<close> in ascending order a single H exactly
  when the receiver's basis bit is 1; a second barrier; and one measurement of all \<open>N\<close>
  qubits.
\<close>

theorem make_bb84_circ_layout:
  assumes "length enc_state = N" "length enc_basis = N" "length meas_basis = N" "0 < N"
  shows "make_bb84_circ enc_state enc_basis meas_basis =
     Inr \<lparr>num_qubits = N,
          data =
            concat (map (\<lambda>i. (if enc_state ! i = 1 then [XGate i] else [])
                              @ (if enc_basis ! i = 1 then [HGate i] else [])) [0..<N])
            @ [Barrier [0..<N]]
            @ concat (map (\<lambda>i. if meas_basis ! i = 1 then [HGate i] else []) [0..<N])
            @ [Barrier [0..<N]]
            @ [MeasureAll [0..<N]]\<rparr>"
  using assms(1-3) by (rule make_bb84_circ_eq)

theorem make_bb84_circ_layout_witness:
  "make_bb84_circ [0, 1, 1, 0] [0, 0, 1, 1] [0, 1, 1, 0] =
     Inr \<lparr>num_qubits = 4,
          data = [XGate 1, XGate 2, HGate 2, HGate 3,
                  Barrier [0, 1, 2, 3],
                  HGate 1, HGate 2,
                  Barrier [0, 1, 2, 3],
                  MeasureAll [0, 1, 2, 3]]\<rparr>"
proof -
  have s: "length [0, 1, 1, 0 :: int] = 4" and b: "length [0, 0, 1, 1 :: int] = 4"
    and p: "0 < (4 :: nat)"
    by simp_all
  have u: "[0..<4] = [0, 1, 2, 3]"
    by (simp add: upt_rec)
  show ?thesis
    using make_bb84_circ_layout [OF s b s p] by (simp add: u)
qed

text \<open>
  C10. For three arrays of equal positive length \<open>N\<close>, construction raises nothing: it
  returns a circuit with exactly \<open>N\<close> qubits, and every qubit index an instruction of
  the circuit uses is below \<open>N\<close>.
\<close>

theorem make_bb84_circ_total:
  assumes "length enc_state = N" "length enc_basis = N" "length meas_basis = N" "0 < N"
  shows "\<exists>c. make_bb84_circ enc_state enc_basis meas_basis = Inr c
           \<and> num_qubits c = N
           \<and> (\<forall>g\<in>set (data c). \<forall>q\<in>set (qubits_of g). q < N)"
  unfolding make_bb84_circ_eq [OF assms(1-3)] by auto

theorem make_bb84_circ_total_witness:
  "\<exists>c. make_bb84_circ [1, 0] [1, 1] [0, 1] = Inr c
       \<and> num_qubits c = 2
       \<and> (\<forall>g\<in>set (data c). \<forall>q\<in>set (qubits_of g). q < 2)"
proof -
  have s: "length [1, 0 :: int] = 2" and b: "length [1, 1 :: int] = 2"
    and m: "length [0, 1 :: int] = 2" and p: "0 < (2 :: nat)"
    by simp_all
  show ?thesis
    using make_bb84_circ_total [OF s b m p] by simp
qed

section \<open>Bit values outside \<open>{0, 1}\<close>\<close>

text \<open>
  C7, as the code has it. Neither step checks the value it reads: at an index within
  the arrays and the circuit, both steps succeed for every integer value, and a value
  other than 1 appends no gate, as 0 does.
\<close>

theorem bit_values_unchecked:
  assumes "index < num_qubits c" "index < length enc_state" "index < length enc_basis"
    and "index < length meas_basis"
  shows "prepare_qubit enc_state enc_basis index c =
           Inr (c\<lparr>data := data c @ (if enc_state ! index = 1 then [XGate index] else [])
                                    @ (if enc_basis ! index = 1 then [HGate index] else [])\<rparr>)
       \<and> rotate_qubit meas_basis index c =
           Inr (c\<lparr>data := data c @ (if meas_basis ! index = 1 then [HGate index] else [])\<rparr>)"
  using assms by (simp add: prepare_qubit_eq rotate_qubit_eq)

theorem bit_values_unchecked_witness:
  "prepare_qubit [2] [1] 0 (QuantumCircuit 1) = Inr \<lparr>num_qubits = 1, data = [HGate 0]\<rparr>
   \<and> rotate_qubit [- 1] 0 (QuantumCircuit 1) = Inr (QuantumCircuit 1)"
proof -
  have q: "0 < num_qubits (QuantumCircuit 1)"
    by (simp add: QuantumCircuit_def)
  have s: "0 < length [2 :: int]" and b: "0 < length [1 :: int]" and m: "0 < length [- 1 :: int]"
    by simp_all
  show ?thesis
    using bit_values_unchecked [OF q s b m] by (simp add: QuantumCircuit_def)
qed

text \<open>
  C7, as the specification has it, fails: a state bit 2 with a basis bit 3, and a
  measurement basis bit 5, raise nothing and leave the circuit as it was.
\<close>

theorem invalid_bits_accepted:
  "prepare_qubit [2] [3] 0 (QuantumCircuit 1) = Inr (QuantumCircuit 1)
   \<and> rotate_qubit [5] 0 (QuantumCircuit 1) = Inr (QuantumCircuit 1)"
  by (simp add: prepare_qubit_def rotate_qubit_def getitem_def QuantumCircuit_def)

section \<open>Generating the bit arrays\<close>

text \<open>
  C6, as the code has it. A negative length fails, with NumPy's ValueError from the
  first draw; length 0 does not fail and gives three empty arrays, consuming nothing
  of the random source.
\<close>

theorem generate_strings_nonpositive:
  "(n < 0 \<longrightarrow> generate_strings n g = Inl ValueError)
   \<and> generate_strings 0 g = Inr (([], [], []), g)"
  by (simp add: generate_strings_def randint2_def)

theorem generate_strings_nonpositive_witness:
  "generate_strings (- 1) (sconst 1) = Inl ValueError
   \<and> generate_strings 0 (sconst 1) = Inr (([], [], []), sconst 1)"
  using generate_strings_nonpositive [of "- 1" "sconst 1"] by simp

text \<open>C6, as the specification has it, fails at length 0: three empty arrays are returned.\<close>

theorem generate_strings_zero_accepted:
  "generate_strings 0 (sconst 0) = Inr (([], [], []), sconst 0)"
  by (simp add: generate_strings_def randint2_def)

section \<open>Sifting\<close>

text \<open>
  C1. For two basis arrays and an outcome string of the same length \<open>N\<close>, sifting over
  \<open>N\<close> positions returns a key whose length is the number of positions \<open>i < N\<close> at which
  the bases agree, and whose \<open>k\<close>-th bit is the outcome at the \<open>k\<close>-th such position in
  ascending order.
\<close>

theorem sift_key:
  assumes "length alice_basis = N" "length bob_basis = N" "length temp_key = N"
  shows "\<exists>key. sift (int N) alice_basis bob_basis temp_key = Inr key
     \<and> length key = card {i. i < N \<and> alice_basis ! i = bob_basis ! i}
     \<and> (\<forall>k<length key. key ! k =
           temp_key ! (sorted_list_of_set {i. i < N \<and> alice_basis ! i = bob_basis ! i} ! k))"
proof -
  have "\<not> sift_fails N alice_basis bob_basis temp_key"
    using assms by (simp add: sift_fails_def)
  then have "sift (int N) alice_basis bob_basis temp_key =
      Inr (map ((!) temp_key) (agreeing N alice_basis bob_basis))"
    by (simp add: sift_eq)
  then show ?thesis
    by (simp add: agreeing_sorted_list length_agreeing)
qed

theorem sift_key_witness:
  "\<exists>key. sift 4 [0, 0, 1, 1] [0, 1, 1, 0] ''0111'' = Inr key
     \<and> length key = card {i. i < 4 \<and> [0, 0, 1, 1 :: int] ! i = [0, 1, 1, 0] ! i}
     \<and> (\<forall>k<length key. key ! k =
           ''0111'' ! (sorted_list_of_set {i. i < 4 \<and> [0, 0, 1, 1 :: int] ! i = [0, 1, 1, 0] ! i} ! k))"
proof -
  have a: "length [0, 0, 1, 1 :: int] = 4" and b: "length [0, 1, 1, 0 :: int] = 4"
    and t: "length ''0111'' = 4"
    by simp_all
  show ?thesis using sift_key [OF a b t] by simp
qed

text \<open>
  C9. When the two basis arrays agree at every position and the outcome string has
  their length, sifting returns the outcome string itself.
\<close>

theorem sift_all_agree:
  assumes "length alice_basis = N" "length bob_basis = N" "length temp_key = N"
    and "\<forall>i<N. alice_basis ! i = bob_basis ! i"
  shows "sift (int N) alice_basis bob_basis temp_key = Inr temp_key"
proof -
  have "\<not> sift_fails N alice_basis bob_basis temp_key"
    using assms by (simp add: sift_fails_def)
  moreover have "agreeing N alice_basis bob_basis = [0..<N]"
    using assms(4) by (simp add: agreeing_def)
  moreover have "map ((!) temp_key) [0..<N] = temp_key"
    using assms(3) map_nth [of temp_key] by simp
  ultimately show ?thesis
    by (simp add: sift_eq)
qed

theorem sift_all_agree_witness:
  "sift 3 [1, 0, 1] [1, 0, 1] ''110'' = Inr ''110''"
proof -
  have a: "length [1, 0, 1 :: int] = 3" and t: "length ''110'' = 3"
    by simp_all
  have e: "\<forall>i<3. [1, 0, 1 :: int] ! i = [1, 0, 1] ! i"
    by simp
  show ?thesis using sift_all_agree [OF a a t e] by simp
qed

text \<open>
  C5, as the code has it. The loop checks no length. Over the positions
  \<open>0, \<dots>, num_qubits - 1\<close> it fails, with IndexError, exactly when one of them lies beyond
  the end of a basis array, or the bases agree there and it lies beyond the end of the
  outcome string; otherwise it returns the outcomes at the agreeing positions. An
  outcome string longer than the basis arrays is therefore accepted, and what lies beyond
  \<open>num_qubits\<close> is ignored.
\<close>

theorem sift_length_mismatch:
  "sift n alice_basis bob_basis temp_key =
     (if sift_fails (nat n) alice_basis bob_basis temp_key then Inl IndexError
      else Inr (map ((!) temp_key) (agreeing (nat n) alice_basis bob_basis)))"
  by (rule sift_eq)

theorem sift_length_mismatch_witness:
  "sift_fails 3 [0, 0, 0] [0, 0, 0] ''01''
   \<and> sift 3 [0, 0, 0] [0, 0, 0] ''01'' = Inl IndexError
   \<and> \<not> sift_fails 3 [0, 0, 1] [0, 0, 0] ''01''
   \<and> sift 3 [0, 0, 1] [0, 0, 0] ''01'' = Inr ''01''"
proof -
  have f: "sift_fails 3 [0, 0, 0] [0, 0, 0] ''01''"
    by code_simp
  have g: "\<not> sift_fails 3 [0, 0, 1] [0, 0, 0] ''01''"
    by code_simp
  have ag: "agreeing 3 [0, 0, 1] [0, 0, 0] = [0, 1]"
    by code_simp
  show ?thesis
    using sift_length_mismatch [of 3 "[0, 0, 0]" "[0, 0, 0]" "''01''"]
      sift_length_mismatch [of 3 "[0, 0, 1]" "[0, 0, 0]" "''01''"] f g ag
    by simp
qed

text \<open>
  C5, as the specification has it, fails: with basis arrays of length 3 and an outcome
  of length 4 a key is returned.
\<close>

theorem sift_longer_outcome_accepted:
  "sift 3 [0, 1, 1] [0, 1, 0] ''0101'' = Inr ''01''"
  by (simp add: sift_def range_py_def sift_step_def getitem_def upt_rec)

section \<open>Key statistics\<close>

text \<open>
  C8. For every key made of the characters 0 and 1, the number of zeros and the number
  of ones add up to the length; for the empty key all three are 0.
\<close>

theorem summarize_counts:
  assumes "set key \<subseteq> {CHR ''0'', CHR ''1''}"
  shows "zeroCount (summarize key) + oneCount (summarize key) = key_length (summarize key)
     \<and> summarize '''' = \<lparr>key_length = 0, zeroCount = 0, oneCount = 0\<rparr>"
proof -
  from assms have "count_list key CHR ''0'' + count_list key CHR ''1'' = length key"
    by (induction key) auto
  then show ?thesis
    by (simp add: summarize_def)
qed

theorem summarize_counts_witness:
  "zeroCount (summarize ''01101'') + oneCount (summarize ''01101'') = key_length (summarize ''01101'')
   \<and> summarize '''' = \<lparr>key_length = 0, zeroCount = 0, oneCount = 0\<rparr>"
proof -
  have b: "set ''01101'' \<subseteq> {CHR ''0'', CHR ''1''}"
    by simp
  show ?thesis using summarize_counts [OF b] by simp
qed

end
